theory Spec2Isabelle
  imports Main "HOL-Library.DAList" "HOL-Library.Product_Lexorder"
begin

section \<open>Exceptions\<close>

text \<open>
  Every exception the class raises is a \<open>ValueError\<close>; the constructors below stand for
  its messages. \<open>IndexError\<close> and the two \<open>ValueError\<close>s of the interpreter (\<open>int()\<close> on
  a text that is no integer literal, unpacking a wrong number of values) arise inside
  \<open>load_matrix\<close> only, and leave it wrapped in \<open>ValueError_reading\<close>. \<open>RuntimeError\<close> is
  what iterating over a dictionary raises when its size has changed since the loop began.
\<close>

datatype exn =
    IndexError
  | ValueError_literal
  | ValueError_unpack
  | ValueError_format
  | ValueError_reading exn
  | ValueError_addition
  | ValueError_subtraction
  | ValueError_multiplication
  | RuntimeError

section \<open>Python strings and integers\<close>

text \<open>
  A text is a \<open>string\<close>, one \<open>char\<close> per character; the model covers ASCII files, which
  is what \<open>__str__\<close> writes. \<open>str.strip()\<close> removes the characters for which
  \<open>str.isspace()\<close> holds: in ASCII the codes 9 to 13, 28 to 31 and 32. \<open>int()\<close> skips
  the whitespace of C only: the codes 9 to 13 and 32. Conversions between integers and
  texts are modelled for integers of any size; the interpreter's configurable limit on
  the number of digits of a conversion is left out.
\<close>

definition isspace :: "char \<Rightarrow> bool" where
  "isspace c = (of_char c \<in> {9, 10, 11, 12, 13, 28, 29, 30, 31, 32 :: nat})"

definition c_isspace :: "char \<Rightarrow> bool" where
  "c_isspace c = (of_char c \<in> {9, 10, 11, 12, 13, 32 :: nat})"

definition isdigit :: "char \<Rightarrow> bool" where
  "isdigit c = (48 \<le> (of_char c :: nat) \<and> (of_char c :: nat) \<le> 57)"

definition strip :: "string \<Rightarrow> string" where
  "strip s = rev (dropWhile isspace (rev (dropWhile isspace s)))"

text \<open>
  \<open>s.split(sep)\<close> for a separator of one character: the pieces between the
  separators, so one piece more than there are separators, and \<open>['']\<close> for the empty text.
\<close>

fun split :: "char \<Rightarrow> string \<Rightarrow> string list" where
  "split sep [] = [[]]"
| "split sep (c # cs) =
     (if c = sep then [] # split sep cs
      else (case split sep cs of
              [] \<Rightarrow> [[c]]
            | w # ws \<Rightarrow> (c # w) # ws))"

definition startswith :: "string \<Rightarrow> string \<Rightarrow> bool" where
  "startswith s p = (take (length p) s = p)"

definition endswith :: "string \<Rightarrow> string \<Rightarrow> bool" where
  "endswith s p = (length p \<le> length s \<and> drop (length s - length p) s = p)"

text \<open>The slice \<open>s[1:-1]\<close>: the text without its first and its last character.\<close>

definition slice_1_m1 :: "string \<Rightarrow> string" where
  "slice_1_m1 s = tl (butlast s)"


text \<open>
  \<open>int(s)\<close> in base 10: whitespace, an optional sign, decimal digits in which single
  underscores may stand between two digits, whitespace. Anything else raises
  \<open>ValueError\<close>. Leading zeros are accepted.
\<close>

definition digit_or_underscore :: "char \<Rightarrow> bool" where
  "digit_or_underscore c = (isdigit c \<or> c = CHR ''_'')"

fun valid_digits :: "string \<Rightarrow> bool" where
  "valid_digits [] = False"
| "valid_digits [c] = isdigit c"
| "valid_digits (c # d # cs) =
     (if isdigit c then valid_digits (d # cs)
      else isdigit d \<and> valid_digits (d # cs))"

definition digits_value :: "string \<Rightarrow> nat" where
  "digits_value ds = foldl (\<lambda>n c. 10 * n + (of_char c - 48)) 0 (filter isdigit ds)"

definition int_py :: "string \<Rightarrow> exn + int" where
  "int_py s =
     (let t = dropWhile c_isspace s;
          neg = (t \<noteq> [] \<and> hd t = CHR ''-'');
          u = (if t \<noteq> [] \<and> (hd t = CHR ''-'' \<or> hd t = CHR ''+'') then tl t else t);
          ds = takeWhile digit_or_underscore u;
          rest = dropWhile digit_or_underscore u
      in if valid_digits ds \<and> isdigit (hd ds) \<and> dropWhile c_isspace rest = []
         then Inr (if neg then - int (digits_value ds) else int (digits_value ds))
         else Inl ValueError_literal)"

text \<open>\<open>str(n)\<close>, which is what an f-string writes for an integer.\<close>

fun str_nat :: "nat \<Rightarrow> string" where
  "str_nat n =
     (if n < 10 then [char_of (48 + n)]
      else str_nat (n div 10) @ [char_of (48 + n mod 10)])"

definition str_int :: "int \<Rightarrow> string" where
  "str_int i = (if i < 0 then CHR ''-'' # str_nat (nat (- i)) else str_nat (nat i))"




section \<open>Data model of \<open>sparse_matrix.py\<close>\<close>

text \<open>
  A \<open>SparseMatrix\<close> instance has three attributes: \<open>num_rows\<close>, \<open>num_cols\<close> and
  \<open>elements\<close>, a Python dictionary from coordinate pairs \<open>(row, col)\<close> to values.
  Python integers are unbounded, so they are \<open>int\<close>. A Python dictionary keeps its
  keys unique and iterates in insertion order; assigning to a key that is present keeps
  the key's position, assigning to a new key appends it. That is an association list
  with distinct keys under \<open>AList.update\<close>, the type \<open>alist\<close>.
\<close>

type_synonym coord = "int \<times> int"

type_synonym dict = "(coord, int) alist"

record sparse_matrix =
  num_rows :: int
  num_cols :: int
  elements :: dict


text \<open>\<open>items d\<close> is \<open>d.items()\<close> and \<open>range_py n\<close> is \<open>range(n)\<close>, empty for \<open>n \<le> 0\<close>.\<close>

definition items :: "dict \<Rightarrow> (coord \<times> int) list" where
  "items d = DAList.impl_of d"

definition range_py :: "int \<Rightarrow> int list" where
  "range_py n = [0..n - 1]"

section \<open>Construction, reading and writing one entry\<close>

text \<open>The branch of \<open>__init__\<close> taken when \<open>num_rows\<close> and \<open>num_cols\<close> are given.\<close>

definition SparseMatrix :: "int \<Rightarrow> int \<Rightarrow> sparse_matrix" where
  "SparseMatrix nr nc = \<lparr>num_rows = nr, num_cols = nc, elements = DAList.empty\<rparr>"

definition get_element :: "sparse_matrix \<Rightarrow> int \<Rightarrow> int \<Rightarrow> int" where
  "get_element self curr_row curr_col =
     (case DAList.lookup (elements self) (curr_row, curr_col) of
        Some v \<Rightarrow> v
      | None \<Rightarrow> 0)"

definition set_element :: "sparse_matrix \<Rightarrow> int \<Rightarrow> int \<Rightarrow> int \<Rightarrow> sparse_matrix" where
  "set_element self curr_row curr_col val =
     self\<lparr>elements := DAList.update (curr_row, curr_col) val (elements self)\<rparr>"

section \<open>Arithmetic\<close>

text \<open>
  The methods on matrices as values. An item \<open>e\<close> of a dictionary is the pair of its key
  \<open>(row, col)\<close> and its value. The body of the loop of \<open>add\<close> is
  \<open>result.elements[(row, col)] += value\<close> when the key is present and
  \<open>result.elements[(row, col)] = value\<close> otherwise. On values, \<open>self.elements.copy()\<close> is
  \<open>elements self\<close>; the section on the store below keeps the copy apart from its source.
\<close>

definition add_entry :: "coord \<times> int \<Rightarrow> dict \<Rightarrow> dict" where
  "add_entry e result =
     (case DAList.lookup result (fst e) of
        Some old \<Rightarrow> DAList.update (fst e) (old + snd e) result
      | None \<Rightarrow> DAList.update (fst e) (snd e) result)"

fun add_loop :: "(coord \<times> int) list \<Rightarrow> dict \<Rightarrow> dict" where
  "add_loop [] result = result"
| "add_loop (e # es) result = add_loop es (add_entry e result)"

definition add :: "sparse_matrix \<Rightarrow> sparse_matrix \<Rightarrow> exn + sparse_matrix" where
  "add self other =
     (if num_rows self \<noteq> num_rows other \<or> num_cols self \<noteq> num_cols other
      then Inl ValueError_addition
      else
        let result = SparseMatrix (num_rows self) (num_cols self);
            result = result\<lparr>elements := elements self\<rparr>
        in Inr (result\<lparr>elements := add_loop (items (elements other)) (elements result)\<rparr>))"

definition subtract_entry :: "coord \<times> int \<Rightarrow> dict \<Rightarrow> dict" where
  "subtract_entry e result =
     (case DAList.lookup result (fst e) of
        Some old \<Rightarrow> DAList.update (fst e) (old - snd e) result
      | None \<Rightarrow> DAList.update (fst e) (- snd e) result)"

fun subtract_loop :: "(coord \<times> int) list \<Rightarrow> dict \<Rightarrow> dict" where
  "subtract_loop [] result = result"
| "subtract_loop (e # es) result = subtract_loop es (subtract_entry e result)"

definition subtract :: "sparse_matrix \<Rightarrow> sparse_matrix \<Rightarrow> exn + sparse_matrix" where
  "subtract self other =
     (if num_rows self \<noteq> num_rows other \<or> num_cols self \<noteq> num_cols other
      then Inl ValueError_subtraction
      else
        let result = SparseMatrix (num_rows self) (num_cols self);
            result = result\<lparr>elements := elements self\<rparr>
        in Inr (result\<lparr>elements := subtract_loop (items (elements other)) (elements result)\<rparr>))"

text \<open>
  The innermost statement of \<open>multiply\<close>, for one entry \<open>(row, col) -> val\<close> of \<open>self\<close> and
  one \<open>k\<close>: nothing happens unless \<open>(col, k)\<close> is a key of \<open>other.elements\<close>.
\<close>

definition multiply_step :: "coord \<times> int \<Rightarrow> dict \<Rightarrow> int \<Rightarrow> dict \<Rightarrow> dict" where
  "multiply_step e other_elements k result =
     (case DAList.lookup other_elements (snd (fst e), k) of
        None \<Rightarrow> result
      | Some b \<Rightarrow>
          (case DAList.lookup result (fst (fst e), k) of
             Some old \<Rightarrow> DAList.update (fst (fst e), k) (old + snd e * b) result
           | None \<Rightarrow> DAList.update (fst (fst e), k) (snd e * b) result))"

fun multiply_inner :: "coord \<times> int \<Rightarrow> dict \<Rightarrow> int list \<Rightarrow> dict \<Rightarrow> dict" where
  "multiply_inner e other_elements [] result = result"
| "multiply_inner e other_elements (k # ks) result =
     multiply_inner e other_elements ks (multiply_step e other_elements k result)"

fun multiply_loop :: "(coord \<times> int) list \<Rightarrow> sparse_matrix \<Rightarrow> dict \<Rightarrow> dict" where
  "multiply_loop [] other result = result"
| "multiply_loop (e # es) other result =
     multiply_loop es other
       (multiply_inner e (elements other) (range_py (num_cols other)) result)"

definition multiply :: "sparse_matrix \<Rightarrow> sparse_matrix \<Rightarrow> exn + sparse_matrix" where
  "multiply self other =
     (if num_cols self \<noteq> num_rows other
      then Inl ValueError_multiplication
      else
        let result = SparseMatrix (num_rows self) (num_cols other)
        in Inr (result\<lparr>elements := multiply_loop (items (elements self)) other (elements result)\<rparr>))"

section \<open>Formatter\<close>

text \<open>
  \<open>__str__\<close>. \<open>sorted\<close> orders the items, which are tuples \<open>((row, col), value)\<close>, the
  way Python compares tuples: lexicographically, which is the order of the product type.
\<close>

definition entry_line :: "coord \<times> int \<Rightarrow> string" where
  "entry_line e =
     ''('' @ str_int (fst (fst e)) @ '', '' @ str_int (snd (fst e)) @ '', '' @ str_int (snd e)
       @ '')'' @ [CHR 0x0A]"


section \<open>Parser\<close>


text \<open>
  \<open>row, col, value = map(int, tokens)\<close>: unpacking draws from the lazy \<open>map\<close> until it
  has three values and asks for a fourth, so \<open>int\<close> runs on the first four tokens at most,
  in order; the first token that is no integer raises, otherwise a count other than three
  does.
\<close>

fun map_int :: "string list \<Rightarrow> exn + int list" where
  "map_int [] = Inr []"
| "map_int (t # ts) =
     (case int_py t of
        Inl e \<Rightarrow> Inl e
      | Inr n \<Rightarrow> (case map_int ts of Inl e \<Rightarrow> Inl e | Inr ns \<Rightarrow> Inr (n # ns)))"

definition unpack3 :: "string list \<Rightarrow> exn + coord \<times> int" where
  "unpack3 tokens =
     (case map_int (take 4 tokens) of
        Inl e \<Rightarrow> Inl e
      | Inr ns \<Rightarrow>
          (case ns of
             [row, col, val] \<Rightarrow> Inr ((row, col), val)
           | _ \<Rightarrow> Inl ValueError_unpack))"

text \<open>One round of the loop over \<open>lines[2:]\<close>; \<open>except ValueError\<close> rewrites the error.\<close>

definition is_ValueError :: "exn \<Rightarrow> bool" where
  "is_ValueError e = (e \<noteq> IndexError \<and> e \<noteq> RuntimeError)"

definition load_line :: "string \<Rightarrow> dict \<Rightarrow> exn + dict" where
  "load_line raw els =
     (let line = strip raw in
      if line = [] then Inr els
      else if \<not> (startswith line ''('' \<and> endswith line '')'') then Inl ValueError_format
      else (case unpack3 (split (CHR '','') (slice_1_m1 line)) of
              Inl e \<Rightarrow> Inl (if is_ValueError e then ValueError_format else e)
            | Inr e \<Rightarrow> Inr (DAList.update (fst e) (snd e) els)))"




section \<open>The same operations on a store of objects\<close>

text \<open>
  In Python a \<open>SparseMatrix\<close> and its dictionary are mutable objects reached through
  references. The store keeps the instances and the dictionaries in two lists; a
  reference is a position, and allocating appends. An instance holds a reference to its
  dictionary. The functions of this section follow the methods statement by statement on
  the store: what they allocate, what they assign, and the \<open>for\<close> loops reading the
  dictionary they iterate over as it is at each round.
\<close>

type_synonym ref = nat

record object =
  obj_num_rows :: int
  obj_num_cols :: int
  obj_elements :: ref

record store =
  instances :: "object list"
  dicts :: "dict list"

definition new_dict :: "dict \<Rightarrow> store \<Rightarrow> ref \<times> store" where
  "new_dict d h = (length (dicts h), h\<lparr>dicts := dicts h @ [d]\<rparr>)"

definition new_instance :: "object \<Rightarrow> store \<Rightarrow> ref \<times> store" where
  "new_instance ob h = (length (instances h), h\<lparr>instances := instances h @ [ob]\<rparr>)"

definition SparseMatrix_h :: "int \<Rightarrow> int \<Rightarrow> store \<Rightarrow> ref \<times> store" where
  "SparseMatrix_h nr nc h =
     (let (d, h) = new_dict DAList.empty h
      in new_instance \<lparr>obj_num_rows = nr, obj_num_cols = nc, obj_elements = d\<rparr> h)"

definition elements_of :: "store \<Rightarrow> ref \<Rightarrow> dict" where
  "elements_of h r = dicts h ! obj_elements (instances h ! r)"

definition get_element_h :: "store \<Rightarrow> ref \<Rightarrow> int \<Rightarrow> int \<Rightarrow> int" where
  "get_element_h h self curr_row curr_col =
     (case DAList.lookup (elements_of h self) (curr_row, curr_col) of
        Some v \<Rightarrow> v
      | None \<Rightarrow> 0)"

text \<open>\<open>r.elements[key] = val\<close>, and \<open>r.elements = d\<close>.\<close>

definition store_item :: "ref \<Rightarrow> coord \<Rightarrow> int \<Rightarrow> store \<Rightarrow> store" where
  "store_item r key val h =
     (let d = obj_elements (instances h ! r)
      in h\<lparr>dicts := (dicts h)[d := DAList.update key val (dicts h ! d)]\<rparr>)"

definition assign_elements :: "ref \<Rightarrow> ref \<Rightarrow> store \<Rightarrow> store" where
  "assign_elements r d h =
     h\<lparr>instances := (instances h)[r := (instances h ! r)\<lparr>obj_elements := d\<rparr>]\<rparr>"

definition set_element_h :: "store \<Rightarrow> ref \<Rightarrow> int \<Rightarrow> int \<Rightarrow> int \<Rightarrow> store" where
  "set_element_h h self curr_row curr_col val = store_item self (curr_row, curr_col) val h"

text \<open>
  \<open>for item in d.items(): body\<close> on the dictionary at reference \<open>d\<close>. The iterator
  remembers the size the dictionary had when the loop began and its own position; each
  round it raises \<open>RuntimeError\<close> if the size has changed, stops at the end, and otherwise
  hands the item at its position, read from the store as it is then, to the body.
\<close>

function for_items ::
  "(coord \<times> int \<Rightarrow> store \<Rightarrow> store) \<Rightarrow> ref \<Rightarrow> nat \<Rightarrow> nat \<Rightarrow> store \<Rightarrow> exn option \<times> store"
where
  "for_items body d used i h =
     (if length (items (dicts h ! d)) \<noteq> used then (Some RuntimeError, h)
      else if i < used then for_items body d used (Suc i) (body (items (dicts h ! d) ! i) h)
      else (None, h))"
  by pat_completeness auto
termination
  by (relation "measure (\<lambda>(body, d, used, i, h). used - i)") auto

declare for_items.simps [simp del]

definition add_body :: "ref \<Rightarrow> coord \<times> int \<Rightarrow> store \<Rightarrow> store" where
  "add_body result e h =
     (case DAList.lookup (elements_of h result) (fst e) of
        Some old \<Rightarrow> store_item result (fst e) (old + snd e) h
      | None \<Rightarrow> store_item result (fst e) (snd e) h)"

definition add_h :: "store \<Rightarrow> ref \<Rightarrow> ref \<Rightarrow> (exn + ref) \<times> store" where
  "add_h h self other =
     (let s = instances h ! self; ot = instances h ! other in
      if obj_num_rows s \<noteq> obj_num_rows ot \<or> obj_num_cols s \<noteq> obj_num_cols ot
      then (Inl ValueError_addition, h)
      else
        let (result, h) = SparseMatrix_h (obj_num_rows s) (obj_num_cols s) h;
            (copy, h) = new_dict (elements_of h self) h;
            h = assign_elements result copy h;
            d = obj_elements (instances h ! other);
            (raised, h) = for_items (add_body result) d (length (items (dicts h ! d))) 0 h
        in (case raised of Some e \<Rightarrow> (Inl e, h) | None \<Rightarrow> (Inr result, h)))"

definition subtract_body :: "ref \<Rightarrow> coord \<times> int \<Rightarrow> store \<Rightarrow> store" where
  "subtract_body result e h =
     (case DAList.lookup (elements_of h result) (fst e) of
        Some old \<Rightarrow> store_item result (fst e) (old - snd e) h
      | None \<Rightarrow> store_item result (fst e) (- snd e) h)"

definition subtract_h :: "store \<Rightarrow> ref \<Rightarrow> ref \<Rightarrow> (exn + ref) \<times> store" where
  "subtract_h h self other =
     (let s = instances h ! self; ot = instances h ! other in
      if obj_num_rows s \<noteq> obj_num_rows ot \<or> obj_num_cols s \<noteq> obj_num_cols ot
      then (Inl ValueError_subtraction, h)
      else
        let (result, h) = SparseMatrix_h (obj_num_rows s) (obj_num_cols s) h;
            (copy, h) = new_dict (elements_of h self) h;
            h = assign_elements result copy h;
            d = obj_elements (instances h ! other);
            (raised, h) = for_items (subtract_body result) d (length (items (dicts h ! d))) 0 h
        in (case raised of Some e \<Rightarrow> (Inl e, h) | None \<Rightarrow> (Inr result, h)))"

definition multiply_step_h :: "ref \<Rightarrow> ref \<Rightarrow> coord \<times> int \<Rightarrow> int \<Rightarrow> store \<Rightarrow> store" where
  "multiply_step_h result other e k h =
     (case DAList.lookup (elements_of h other) (snd (fst e), k) of
        None \<Rightarrow> h
      | Some b \<Rightarrow>
          (case DAList.lookup (elements_of h result) (fst (fst e), k) of
             Some old \<Rightarrow> store_item result (fst (fst e), k) (old + snd e * b) h
           | None \<Rightarrow> store_item result (fst (fst e), k) (snd e * b) h))"

definition multiply_body :: "ref \<Rightarrow> ref \<Rightarrow> coord \<times> int \<Rightarrow> store \<Rightarrow> store" where
  "multiply_body result other e h =
     fold (multiply_step_h result other e) (range_py (obj_num_cols (instances h ! other))) h"

definition multiply_h :: "store \<Rightarrow> ref \<Rightarrow> ref \<Rightarrow> (exn + ref) \<times> store" where
  "multiply_h h self other =
     (let s = instances h ! self; ot = instances h ! other in
      if obj_num_cols s \<noteq> obj_num_rows ot
      then (Inl ValueError_multiplication, h)
      else
        let (result, h) = SparseMatrix_h (obj_num_rows s) (obj_num_cols ot) h;
            d = obj_elements (instances h ! self);
            (raised, h) = for_items (multiply_body result other) d (length (items (dicts h ! d))) 0 h
        in (case raised of Some e \<Rightarrow> (Inl e, h) | None \<Rightarrow> (Inr result, h)))"

text \<open>
  An operand is valid in a store when it refers to an instance of the store whose
  dictionary is in the store too. \<open>view\<close> reads an instance as a value.
\<close>

definition valid :: "store \<Rightarrow> ref \<Rightarrow> bool" where
  "valid h r = (r < length (instances h) \<and> obj_elements (instances h ! r) < length (dicts h))"

definition view :: "store \<Rightarrow> ref \<Rightarrow> sparse_matrix" where
  "view h r =
     \<lparr>num_rows = obj_num_rows (instances h ! r), num_cols = obj_num_cols (instances h ! r),
      elements = elements_of h r\<rparr>"

section \<open>Notions used in the statements\<close>

text \<open>The value a dictionary gives a coordinate when read as \<open>get_element\<close> reads it.\<close>

definition value_at :: "dict \<Rightarrow> coord \<Rightarrow> int" where
  "value_at d k = (case DAList.lookup d k of Some v \<Rightarrow> v | None \<Rightarrow> 0)"

text \<open>Every stored entry lies within the declared dimensions.\<close>

definition within_dimensions :: "sparse_matrix \<Rightarrow> bool" where
  "within_dimensions M =
     list_all (\<lambda>e. 0 \<le> fst (fst e) \<and> fst (fst e) < num_rows M
                 \<and> 0 \<le> snd (fst e) \<and> snd (fst e) < num_cols M)
       (items (elements M))"

text \<open>The matrix without the entries whose column index is outside \<open>[0, num_cols)\<close>.\<close>

definition column_inside :: "int \<Rightarrow> coord \<times> int \<Rightarrow> bool" where
  "column_inside n e = (0 \<le> snd (fst e) \<and> snd (fst e) < n)"

definition without_outside_columns :: "sparse_matrix \<Rightarrow> sparse_matrix" where
  "without_outside_columns M =
     M\<lparr>elements := DAList.filter (column_inside (num_cols M)) (elements M)\<rparr>"

text \<open>
  The matrices of the specification's example: \<open>{(0,0):2, (0,1):3}\<close>, 2 by 2, and
  \<open>{(0,0):1, (1,0):4}\<close>, 2 by 1.
\<close>

definition example_A :: sparse_matrix where
  "example_A = set_element (set_element (SparseMatrix 2 2) 0 0 2) 0 1 3"

definition example_B :: sparse_matrix where
  "example_B = set_element (set_element (SparseMatrix 2 1) 0 0 1) 1 0 4"





definition is_blank :: "string \<Rightarrow> bool" where
  "is_blank line = (strip line = [])"

text \<open>
  Frame conditions on the store. \<open>unchanged h h'\<close>: every instance and every dictionary of
  \<open>h\<close> is in \<open>h'\<close> at the same reference with the same content, so whatever \<open>h\<close> held has not
  been mutated. \<open>fresh h h' r\<close>: \<open>r\<close> is an instance of \<open>h'\<close> that \<open>h\<close> did not have, and its
  dictionary is one that \<open>h\<close> did not have either.
\<close>

definition unchanged :: "store \<Rightarrow> store \<Rightarrow> bool" where
  "unchanged h h' =
     (take (length (instances h)) (instances h') = instances h \<and>
      take (length (dicts h)) (dicts h') = dicts h)"

definition fresh :: "store \<Rightarrow> store \<Rightarrow> ref \<Rightarrow> bool" where
  "fresh h h' r =
     (length (instances h) \<le> r \<and> r < length (instances h') \<and>
      length (dicts h) \<le> obj_elements (instances h' ! r) \<and>
      obj_elements (instances h' ! r) < length (dicts h'))"

text \<open>
  Used in the proofs: replacing the dictionary of an instance by a function of it, and the
  invariant of the loops (the instances are fixed, the number of dictionaries is fixed, the
  first dictionaries are fixed).
\<close>

definition on_result :: "ref \<Rightarrow> (dict \<Rightarrow> dict) \<Rightarrow> store \<Rightarrow> store" where
  "on_result r f h =
     h\<lparr>dicts := (dicts h)[obj_elements (instances h ! r) :=
                      f (dicts h ! obj_elements (instances h ! r))]\<rparr>"

definition frame_inv :: "object list \<Rightarrow> dict list \<Rightarrow> nat \<Rightarrow> store \<Rightarrow> bool" where
  "frame_inv I0 D0 L h =
     (instances h = I0 \<and> length (dicts h) = L \<and> take (length D0) (dicts h) = D0)"

text \<open>
  What claim C7 asks of the outcome \<open>p\<close> (the result and the store after the call) of
  an arithmetic method called in store \<open>h\<close> on the operands \<open>a\<close> and \<open>b\<close>: nothing that \<open>h\<close>
  held has changed, so both operands read as before; and when a matrix \<open>r\<close> is returned it
  is a fresh instance with a fresh dictionary, distinct from both operands, and
  \<open>r.set_element(row, col, v)\<close> afterwards still leaves everything that \<open>h\<close> held, and so
  both operands, as it was. \<open>outcome_view\<close> reads the outcome as a value.
\<close>

definition frame_ok ::
  "store \<Rightarrow> ref \<Rightarrow> ref \<Rightarrow> int \<Rightarrow> int \<Rightarrow> int \<Rightarrow> (exn + ref) \<times> store \<Rightarrow> bool"
where
  "frame_ok h a b row col v p =
     (unchanged h (snd p) \<and> view (snd p) a = view h a \<and> view (snd p) b = view h b \<and>
      (case fst p of
         Inl e \<Rightarrow> True
       | Inr r \<Rightarrow>
           fresh h (snd p) r \<and> r \<noteq> a \<and> r \<noteq> b \<and>
           unchanged h (set_element_h (snd p) r row col v) \<and>
           view (set_element_h (snd p) r row col v) a = view h a \<and>
           view (set_element_h (snd p) r row col v) b = view h b))"

definition outcome_view :: "(exn + ref) \<times> store \<Rightarrow> exn + sparse_matrix" where
  "outcome_view p = (case fst p of Inl e \<Rightarrow> Inl e | Inr r \<Rightarrow> Inr (view (snd p) r))"

text \<open>A store holding the two matrices of the example, built by the constructor and \<open>set_element\<close>.\<close>

definition example_store :: store where
  "example_store =
     (let (a, h) = SparseMatrix_h 2 2 \<lparr>instances = [], dicts = []\<rparr>;
          h = set_element_h h a 0 0 2;
          h = set_element_h h a 0 1 3;
          (b, h) = SparseMatrix_h 2 2 h;
          h = set_element_h h b 0 0 1;
          h = set_element_h h b 1 0 4
      in h)"

section \<open>Properties of \<open>get_element\<close> and \<open>set_element\<close>\<close>

lemma lookup_items: "DAList.lookup d = map_of (items d)"
  by (simp add: items_def DAList.lookup.rep_eq)

lemma distinct_items: "distinct (map fst (items d))"
  by (simp add: items_def)

lemma items_empty: "items DAList.empty = []"
  by (simp add: items_def DAList.empty.rep_eq)

lemma items_update: "items (DAList.update k v d) = AList.update k v (items d)"
  by (simp add: items_def DAList.update.rep_eq)

text \<open>
  Claim C9. For every matrix and all integer coordinates, inside the declared dimensions
  or not, negative or not, \<open>get_element\<close> returns the stored value, or 0 when the
  coordinate is not a key; it is a total function of the matrix, so it raises nothing and
  changes nothing. \<open>set_element\<close> checks no bound and cannot fail: it yields the matrix
  with the same dimensions whose mapping has the coordinate bound to the value and every
  other coordinate as before, so reading the coordinate back gives the value.
\<close>

theorem get_set_element:
  "get_element self r c = (case map_of (items (elements self)) (r, c) of Some v \<Rightarrow> v | None \<Rightarrow> 0)
   \<and> map_of (items (elements (set_element self r c v))) = (map_of (items (elements self)))((r, c) \<mapsto> v)
   \<and> num_rows (set_element self r c v) = num_rows self
   \<and> num_cols (set_element self r c v) = num_cols self
   \<and> get_element (set_element self r c v) r' c' =
       (if r' = r \<and> c' = c then v else get_element self r' c')"
  by (simp add: get_element_def set_element_def lookup_items items_update update_conv')

theorem get_set_element_witness:
  "get_element (SparseMatrix 2 2) 5 (- 1) = 0
   \<and> get_element (set_element (SparseMatrix 2 2) 5 (- 1) 7) 5 (- 1) = 7
   \<and> get_element (set_element (SparseMatrix 2 2) 5 (- 1) 7) 0 0 = 0
   \<and> num_rows (set_element (SparseMatrix 2 2) 5 (- 1) 7) = 2"
proof -
  have e: "map_of (items (elements (SparseMatrix 2 2))) = Map.empty"
    by (simp add: SparseMatrix_def items_empty)
  have "get_element (SparseMatrix 2 2) 5 (- 1) = 0" and "get_element (SparseMatrix 2 2) 0 0 = 0"
    using get_set_element [of "SparseMatrix 2 2" 5 "- 1"]
      get_set_element [of "SparseMatrix 2 2" 0 0] e by simp_all
  then show ?thesis
    using get_set_element [of "SparseMatrix 2 2" 5 "- 1" 7 5 "- 1"]
      get_set_element [of "SparseMatrix 2 2" 5 "- 1" 7 0 0]
    by (simp add: SparseMatrix_def)
qed

section \<open>Properties of the dimension checks\<close>

text \<open>
  Claim C4. \<open>add\<close> and \<open>subtract\<close> raise their dimension error exactly when the row
  counts or the column counts of the operands differ, \<open>multiply\<close> exactly when the column
  count of the first differs from the row count of the second. Otherwise each returns a
  matrix, of dimensions \<open>(A.num_rows, A.num_cols)\<close> for \<open>add\<close> and \<open>subtract\<close> and
  \<open>(A.num_rows, B.num_cols)\<close> for \<open>multiply\<close>. A call yields either the error or a
  matrix, never both.
\<close>

theorem dimension_mismatch_iff:
  "(if num_rows A \<noteq> num_rows B \<or> num_cols A \<noteq> num_cols B
    then add A B = Inl ValueError_addition \<and> subtract A B = Inl ValueError_subtraction
    else (\<exists>R. add A B = Inr R \<and> num_rows R = num_rows A \<and> num_cols R = num_cols A)
       \<and> (\<exists>R. subtract A B = Inr R \<and> num_rows R = num_rows A \<and> num_cols R = num_cols A))
   \<and> (if num_cols A \<noteq> num_rows B
      then multiply A B = Inl ValueError_multiplication
      else (\<exists>R. multiply A B = Inr R \<and> num_rows R = num_rows A \<and> num_cols R = num_cols B))"
  by (simp add: add_def subtract_def multiply_def SparseMatrix_def Let_def)

theorem dimension_mismatch_iff_witness:
  "add (SparseMatrix 2 3) (SparseMatrix 3 4) = Inl ValueError_addition
   \<and> subtract (SparseMatrix 2 3) (SparseMatrix 3 4) = Inl ValueError_subtraction
   \<and> (\<exists>R. multiply (SparseMatrix 2 3) (SparseMatrix 3 4) = Inr R
          \<and> num_rows R = 2 \<and> num_cols R = 4)
   \<and> (\<exists>R. add (SparseMatrix 2 3) (SparseMatrix 2 3) = Inr R \<and> num_rows R = 2 \<and> num_cols R = 3)
   \<and> multiply (SparseMatrix 2 3) (SparseMatrix 2 3) = Inl ValueError_multiplication"
  using dimension_mismatch_iff [of "SparseMatrix 2 3" "SparseMatrix 3 4"]
    dimension_mismatch_iff [of "SparseMatrix 2 3" "SparseMatrix 2 3"]
  by (simp add: SparseMatrix_def)

section \<open>Properties of \<open>add\<close>\<close>

lemma get_element_value_at: "get_element M r c = value_at (elements M) (r, c)"
  by (simp add: get_element_def value_at_def)

lemma value_at_update:
  "value_at (DAList.update k v d) k' = (if k' = k then v else value_at d k')"
  by (simp add: value_at_def DAList.lookup_update)

lemma value_at_add_entry:
  "value_at (add_entry e d) k = value_at d k + (if fst e = k then snd e else 0)"
  by (auto simp: add_entry_def value_at_def DAList.lookup_update split: option.splits)

lemma value_at_add_loop:
  "value_at (add_loop es d) k = value_at d k + sum_list (map snd (filter (\<lambda>e. fst e = k) es))"
  by (induction es arbitrary: d) (simp_all add: value_at_add_entry)

lemma sum_list_key:
  "distinct (map fst es) \<Longrightarrow>
   sum_list (map snd (filter (\<lambda>e. fst e = k) es)) = (case map_of es k of Some v \<Rightarrow> v | None \<Rightarrow> (0::int))"
  by (induction es) (auto split: option.splits simp: image_iff)

lemma value_at_add_items:
  "value_at (add_loop (items b) a) k = value_at a k + value_at b k"
  by (simp add: value_at_add_loop sum_list_key distinct_items) (simp add: value_at_def lookup_items)

text \<open>
  Claim C8. For matrices of equal dimensions, both \<open>add A B\<close> and \<open>add B A\<close> return a
  matrix, and \<open>get_element\<close> reads the same value from the two at every coordinate.
\<close>

theorem add_commutes:
  "num_rows A = num_rows B \<Longrightarrow> num_cols A = num_cols B \<Longrightarrow>
   \<exists>R S. add A B = Inr R \<and> add B A = Inr S \<and> get_element R r c = get_element S r c"
  by (simp add: add_def SparseMatrix_def get_element_value_at value_at_add_items)

theorem add_commutes_witness:
  "\<exists>R S. add (set_element (SparseMatrix 2 2) 0 0 2) (set_element (SparseMatrix 2 2) 0 1 3) = Inr R
     \<and> add (set_element (SparseMatrix 2 2) 0 1 3) (set_element (SparseMatrix 2 2) 0 0 2) = Inr S
     \<and> get_element R 0 1 = get_element S 0 1"
  using add_commutes [of "set_element (SparseMatrix 2 2) 0 0 2"
      "set_element (SparseMatrix 2 2) 0 1 3" 0 1]
  by (simp add: set_element_def SparseMatrix_def)

section \<open>Properties of \<open>multiply\<close>\<close>

lemma value_at_multiply_step:
  "value_at (multiply_step e od k res) key =
   value_at res key + (if key = (fst (fst e), k) then snd e * value_at od (snd (fst e), k) else 0)"
  by (auto simp: multiply_step_def value_at_def DAList.lookup_update split: option.splits)

lemma value_at_multiply_inner:
  "distinct ks \<Longrightarrow>
   value_at (multiply_inner e od ks res) (i, j) =
   value_at res (i, j) + (if fst (fst e) = i \<and> j \<in> set ks then snd e * value_at od (snd (fst e), j) else 0)"
  by (induction ks arbitrary: res) (auto simp: value_at_multiply_step)

lemma value_at_multiply_loop:
  "value_at (multiply_loop es other res) (i, j) =
   value_at res (i, j) +
   (if j \<in> set (range_py (num_cols other))
    then sum_list (map (\<lambda>e. if fst (fst e) = i then snd e * value_at (elements other) (snd (fst e), j) else 0) es)
    else 0)"
  by (induction es arbitrary: res) (auto simp: value_at_multiply_inner range_py_def)

lemma sum_list_row:
  fixes f :: "int \<Rightarrow> int"
  assumes "distinct (map fst es)" "\<forall>e \<in> set es. snd (fst e) \<in> C" "finite C"
  shows "sum_list (map (\<lambda>e. if fst (fst e) = i then snd e * f (snd (fst e)) else 0) es) =
         (\<Sum>c\<in>C. (case map_of es (i, c) of Some v \<Rightarrow> v | None \<Rightarrow> 0) * f c)"
  using assms
proof (induction es)
  case Nil
  then show ?case by simp
next
  case (Cons e es)
  obtain r c v where e: "e = ((r, c), v)" by (metis surj_pair)
  have IH: "sum_list (map (\<lambda>e. if fst (fst e) = i then snd e * f (snd (fst e)) else 0) es) =
         (\<Sum>c\<in>C. (case map_of es (i, c) of Some v \<Rightarrow> v | None \<Rightarrow> 0) * f c)"
    using Cons by simp
  show ?case
  proof (cases "r = i")
    case False
    then show ?thesis using IH e by simp
  next
    case True
    have none: "map_of es (i, c) = None" using Cons.prems(1) e True
      by (simp add: map_of_eq_None_iff)
    have cC: "c \<in> C" using Cons.prems(2) e by simp
    have "(\<Sum>c'\<in>C. (case map_of (e # es) (i, c') of Some v \<Rightarrow> v | None \<Rightarrow> 0) * f c') =
          (\<Sum>c'\<in>C. (if c' = c then v * f c else 0) + (case map_of es (i, c') of Some v \<Rightarrow> v | None \<Rightarrow> 0) * f c')"
      by (rule sum.cong) (auto simp: e True none)
    also have "\<dots> = v * f c + (\<Sum>c'\<in>C. (case map_of es (i, c') of Some v \<Rightarrow> v | None \<Rightarrow> 0) * f c')"
      using cC \<open>finite C\<close> by (simp add: sum.distrib)
    finally show ?thesis using IH e True by simp
  qed
qed

lemma set_range_py: "set (range_py n) = {0..<n}"
  by (auto simp: range_py_def)

lemma multiply_get_element:
  assumes "list_all (\<lambda>e. 0 \<le> snd (fst e) \<and> snd (fst e) < num_cols A) (items (elements A))"
    and "list_all (\<lambda>e. 0 \<le> snd (fst e) \<and> snd (fst e) < num_cols B) (items (elements B))"
  shows "value_at (multiply_loop (items (elements A)) B DAList.empty) (i, k) =
         (\<Sum>c = 0..<num_cols A. get_element A i c * get_element B c k)"
proof (cases "k \<in> {0..<num_cols B}")
  case True
  have "\<forall>e\<in>set (items (elements A)). snd (fst e) \<in> {0..<num_cols A}"
    using assms(1) by (simp add: list_all_iff)
  then have "sum_list (map (\<lambda>e. if fst (fst e) = i then snd e * (\<lambda>c. value_at (elements B) (c, k)) (snd (fst e)) else 0) (items (elements A))) =
         (\<Sum>c\<in>{0..<num_cols A}. (case map_of (items (elements A)) (i, c) of Some v \<Rightarrow> v | None \<Rightarrow> 0) * (\<lambda>c. value_at (elements B) (c, k)) c)"
    by (intro sum_list_row distinct_items) simp_all
  then show ?thesis using True
    by (simp add: value_at_multiply_loop set_range_py get_element_value_at)
       (simp add: value_at_def lookup_items items_empty)
next
  case False
  have "map_of (items (elements B)) (c, k) = None" for c
  proof (rule ccontr)
    assume "map_of (items (elements B)) (c, k) \<noteq> None"
    then obtain v where "((c, k), v) \<in> set (items (elements B))"
      by (auto dest: map_of_SomeD)
    then show False using assms(2) False by (auto simp: list_all_iff)
  qed
  then have "get_element B c k = 0" for c
    by (simp add: get_element_def lookup_items)
  then have rhs: "(\<Sum>c = 0..<num_cols A. get_element A i c * get_element B c k) = 0"
    by simp
  have "value_at (multiply_loop (items (elements A)) B DAList.empty) (i, k) =
        value_at DAList.empty (i, k)"
    using False by (auto simp: value_at_multiply_loop set_range_py)
  also have "\<dots> = 0" by (simp add: value_at_def)
  finally show ?thesis using rhs by simp
qed

lemma multiply_example:
  "\<exists>R. multiply example_A example_B = Inr R \<and> items (elements R) = [((0, 0), 14)]"
  by (simp add: example_A_def example_B_def multiply_def set_element_def SparseMatrix_def
      items_update items_empty range_py_def multiply_step_def lookup_items upto.simps)

text \<open>
  Claim C1. When every stored entry of \<open>A\<close> and of \<open>B\<close> lies within the declared
  dimensions and \<open>A.num_cols = B.num_rows\<close>, \<open>multiply A B\<close> returns a matrix of
  dimensions \<open>(A.num_rows, B.num_cols)\<close> in which \<open>get_element i k\<close> is the sum over \<open>c\<close> in
  \<open>[0, A.num_cols)\<close> of \<open>A.get_element(i, c) * B.get_element(c, k)\<close>, for all integers \<open>i\<close>
  and \<open>k\<close>. For the example matrices the product has the element mapping \<open>{(0,0): 14}\<close>.
\<close>

theorem multiply_correct:
  "(within_dimensions A \<and> within_dimensions B \<and> num_cols A = num_rows B \<longrightarrow>
     (\<exists>R. multiply A B = Inr R \<and> num_rows R = num_rows A \<and> num_cols R = num_cols B
        \<and> (\<forall>i k. get_element R i k =
               (\<Sum>c = 0..<num_cols A. get_element A i c * get_element B c k))))
   \<and> (\<exists>R. multiply example_A example_B = Inr R \<and> items (elements R) = [((0, 0), 14)])"
proof (intro conjI impI)
  assume h: "within_dimensions A \<and> within_dimensions B \<and> num_cols A = num_rows B"
  have a: "list_all (\<lambda>e. 0 \<le> snd (fst e) \<and> snd (fst e) < num_cols A) (items (elements A))"
    using h by (auto simp: within_dimensions_def list_all_iff)
  have b: "list_all (\<lambda>e. 0 \<le> snd (fst e) \<and> snd (fst e) < num_cols B) (items (elements B))"
    using h by (auto simp: within_dimensions_def list_all_iff)
  show "\<exists>R. multiply A B = Inr R \<and> num_rows R = num_rows A \<and> num_cols R = num_cols B
        \<and> (\<forall>i k. get_element R i k =
               (\<Sum>c = 0..<num_cols A. get_element A i c * get_element B c k))"
    using h multiply_get_element [OF a b]
    by (simp add: multiply_def SparseMatrix_def get_element_value_at)
next
  show "\<exists>R. multiply example_A example_B = Inr R \<and> items (elements R) = [((0, 0), 14)]"
    by (rule multiply_example)
qed

theorem multiply_correct_witness:
  "within_dimensions example_A \<and> within_dimensions example_B
   \<and> num_cols example_A = num_rows example_B
   \<and> (\<exists>R. multiply example_A example_B = Inr R \<and> num_rows R = 2 \<and> num_cols R = 1
          \<and> get_element R 0 0 = 14 \<and> get_element R 1 0 = 0)"
proof -
  have w: "within_dimensions example_A \<and> within_dimensions example_B
      \<and> num_cols example_A = num_rows example_B"
    by (simp add: within_dimensions_def example_A_def example_B_def set_element_def
        SparseMatrix_def items_update items_empty)
  have i: "{0..<2::int} = {0, 1}" by auto
  have g: "get_element example_A 0 0 = 2" "get_element example_A 0 1 = 3"
    "get_element example_A 1 0 = 0" "get_element example_A 1 1 = 0"
    "get_element example_B 0 0 = 1" "get_element example_B 1 0 = 4"
    by (simp_all add: get_element_def example_A_def example_B_def set_element_def
        SparseMatrix_def DAList.lookup_update)
  have d: "num_rows example_A = 2" "num_cols example_A = 2" "num_cols example_B = 1"
    by (simp_all add: example_A_def example_B_def set_element_def SparseMatrix_def)
  show ?thesis
    using w multiply_correct [of example_A example_B] by (auto simp: d i g)
qed

lemma lookup_filter_inside:
  "0 \<le> k \<and> k < n \<Longrightarrow>
   DAList.lookup (DAList.filter (column_inside n) d) (c, k) = DAList.lookup d (c, k)"
proof -
  have "column_inside n ((c, k), v) \<Longrightarrow> map_of (filter (column_inside n) xs) (c, k) = map_of xs (c, k)" for xs :: "(coord \<times> int) list" and v
    by (induction xs) (auto simp: column_inside_def)
  then show "0 \<le> k \<and> k < n \<Longrightarrow> ?thesis"
    by (simp add: DAList.lookup.rep_eq DAList.filter.rep_eq column_inside_def)
qed

lemma multiply_step_filter:
  "0 \<le> k \<and> k < n \<Longrightarrow>
   multiply_step e (DAList.filter (column_inside n) d) k res = multiply_step e d k res"
  by (simp add: multiply_step_def lookup_filter_inside)

lemma multiply_inner_filter:
  "\<forall>k \<in> set ks. 0 \<le> k \<and> k < n \<Longrightarrow>
   multiply_inner e (DAList.filter (column_inside n) d) ks res = multiply_inner e d ks res"
  by (induction ks arbitrary: res) (simp_all add: multiply_step_filter)

lemma multiply_loop_filter:
  "multiply_loop es (without_outside_columns B) res = multiply_loop es B res"
  by (induction es arbitrary: res)
     (simp_all add: without_outside_columns_def multiply_inner_filter set_range_py)

lemma keys_update: "fst ` set (items (DAList.update k v d)) = insert k (fst ` set (items d))"
  by (simp add: items_update dom_update)

lemma keys_multiply_step:
  "fst ` set (items (multiply_step e d k res)) \<subseteq> insert (fst (fst e), k) (fst ` set (items res))"
  by (auto simp: multiply_step_def keys_update split: option.splits)

lemma keys_multiply_inner:
  "fst ` set (items (multiply_inner e d ks res)) \<subseteq> (\<lambda>k. (fst (fst e), k)) ` set ks \<union> fst ` set (items res)"
proof (induction ks arbitrary: res)
  case Nil
  then show ?case by simp
next
  case (Cons k ks)
  show ?case using Cons.IH [of "multiply_step e d k res"] keys_multiply_step [of e d k res]
    by auto
qed

lemma keys_multiply_loop:
  "e' \<in> set (items (multiply_loop es B res)) \<Longrightarrow>
   snd (fst e') \<in> set (range_py (num_cols B)) \<or> e' \<in> set (items res) \<or>
   fst e' \<in> fst ` set (items res)"
proof (induction es arbitrary: res)
  case Nil
  then show ?case by simp
next
  case (Cons e es)
  let ?r = "multiply_inner e (elements B) (range_py (num_cols B)) res"
  from Cons.prems have "e' \<in> set (items (multiply_loop es B ?r))" by simp
  then have "snd (fst e') \<in> set (range_py (num_cols B)) \<or> fst e' \<in> fst ` set (items ?r)"
    using Cons.IH [of ?r] by auto
  moreover have "fst e' \<in> fst ` set (items ?r) \<Longrightarrow>
      snd (fst e') \<in> set (range_py (num_cols B)) \<or> fst e' \<in> fst ` set (items res)"
    using keys_multiply_inner [of e "elements B" "range_py (num_cols B)" res] by auto
  ultimately show ?case by blast
qed

text \<open>
  Claim C10. When \<open>A.num_cols = B.num_rows\<close>, the entries of \<open>B\<close> whose column index is
  outside \<open>[0, B.num_cols)\<close> contribute nothing to \<open>multiply A B\<close>: the call returns the
  very matrix it returns for \<open>B\<close> with those entries removed, and every key \<open>(r, k)\<close> of the
  result has \<open>0 \<le> k < B.num_cols\<close>.
\<close>

theorem multiply_ignores_outside_columns:
  "num_cols A = num_rows B \<Longrightarrow>
   \<exists>R. multiply A B = Inr R \<and> multiply A (without_outside_columns B) = Inr R
     \<and> list_all (\<lambda>e. 0 \<le> snd (fst e) \<and> snd (fst e) < num_cols B) (items (elements R))"
proof -
  assume h: "num_cols A = num_rows B"
  have "0 \<le> snd (fst e) \<and> snd (fst e) < num_cols B"
    if "e \<in> set (items (multiply_loop (items (elements A)) B DAList.empty))" for e
    using keys_multiply_loop [OF that] by (simp add: items_empty set_range_py)
  then have "list_all (\<lambda>e. 0 \<le> snd (fst e) \<and> snd (fst e) < num_cols B)
     (items (multiply_loop (items (elements A)) B DAList.empty))"
    unfolding list_all_iff by blast
  then show ?thesis using h
    by (simp add: multiply_def SparseMatrix_def multiply_loop_filter)
       (simp add: without_outside_columns_def)
qed

theorem multiply_ignores_outside_columns_witness:
  "num_cols example_A = num_rows (set_element example_B 0 5 9)
   \<and> get_element (set_element example_B 0 5 9) 0 5 = 9
   \<and> (\<exists>R. multiply example_A (set_element example_B 0 5 9) = Inr R
          \<and> multiply example_A (without_outside_columns (set_element example_B 0 5 9)) = Inr R
          \<and> list_all (\<lambda>e. 0 \<le> snd (fst e) \<and> snd (fst e) < 1) (items (elements R)))"
proof -
  have h: "num_cols example_A = num_rows (set_element example_B 0 5 9)"
    by (simp add: example_A_def example_B_def set_element_def SparseMatrix_def)
  have n: "num_cols (set_element example_B 0 5 9) = 1"
    by (simp add: example_B_def set_element_def SparseMatrix_def)
  have g: "get_element (set_element example_B 0 5 9) 0 5 = 9"
    by (simp add: get_element_def set_element_def)
  show ?thesis
    using h g multiply_ignores_outside_columns [OF h] by (simp add: n)
qed

section \<open>Properties of the formatter\<close>






section \<open>Properties of the parser: header lines\<close>



















lemma load_line_blank: "is_blank l \<Longrightarrow> load_line l d = Inr d"
  by (simp add: is_blank_def load_line_def)











section \<open>Properties of the parser: entry lines\<close>



section \<open>Writing an integer and reading it back\<close>

declare str_nat.simps [simp del]


lemma digit_value_char_of: "d < 10 \<Longrightarrow> (of_char (char_of (48 + d :: nat)) :: nat) - 48 = d"
  by simp

























section \<open>Reading back what the formatter writes\<close>








lemma entry_line_body:
  "entry_line e = (''('' @ str_int (fst (fst e)) @ '', '' @ str_int (snd (fst e)) @ '', ''
       @ str_int (snd e) @ '')'') @ [CHR 0x0A]"
  by (simp add: entry_line_def)












section \<open>Properties of the methods on the store\<close>

lemma on_result_instances: "instances (on_result r f h) = instances h"
  by (simp add: on_result_def)

lemma on_result_id: "on_result r (\<lambda>d. d) h = h"
  by (simp add: on_result_def)

lemma on_result_comp: "on_result r g (on_result r f h) = on_result r (\<lambda>d. g (f d)) h"
  by (cases "obj_elements (instances h ! r) < length (dicts h)")
     (simp_all add: on_result_def not_less list_update_beyond)

lemma fold_on_result:
  "fold (\<lambda>e. on_result r (g e)) es h = on_result r (fold g es) h"
proof (induction es arbitrary: h)
  case Nil
  then show ?case by (simp add: on_result_id)
next
  case (Cons e es)
  then show ?case by (simp add: on_result_comp)
qed

lemma store_item_on_result: "store_item r k v h = on_result r (DAList.update k v) h"
  by (simp add: store_item_def on_result_def Let_def)

lemma add_body_on_result: "add_body r e h = on_result r (add_entry e) h"
  by (simp add: add_body_def add_entry_def elements_of_def store_item_on_result on_result_def
      split: option.splits)

lemma subtract_body_on_result: "subtract_body r e h = on_result r (subtract_entry e) h"
  by (simp add: subtract_body_def subtract_entry_def elements_of_def store_item_on_result
      on_result_def split: option.splits)

lemma multiply_step_h_on_result:
  "multiply_step_h r ot e k h = on_result r (multiply_step e (elements_of h ot) k) h"
  by (simp add: multiply_step_h_def multiply_step_def elements_of_def store_item_on_result
      on_result_def split: option.splits)

lemma frame_inv_on_result:
  assumes "frame_inv I0 D0 L h" "length D0 \<le> obj_elements (I0 ! r)"
  shows "frame_inv I0 D0 L (on_result r f h)"
  using assms by (simp add: frame_inv_def on_result_def)

lemma frame_inv_nth:
  "frame_inv I0 D0 L h \<Longrightarrow> d < length D0 \<Longrightarrow> dicts h ! d = D0 ! d"
  by (metis frame_inv_def nth_take)

lemma for_items_inv:
  assumes "Q h" and "\<And>h e. Q h \<Longrightarrow> Q (body e h)"
    and "\<And>h. Q h \<Longrightarrow> items (dicts h ! d) = es" and "used = length es"
  shows "for_items body d used i h = (None, fold body (drop i es) h)"
  using assms(1)
proof (induction "used - i" arbitrary: i h)
  case 0
  then have "items (dicts h ! d) = es" using assms(3) by simp
  then show ?case using 0 assms(4) by (subst for_items.simps) simp
next
  case (Suc n)
  have es: "items (dicts h ! d) = es" using assms(3) Suc.prems by simp
  have i: "i < used" using Suc.hyps(2) by simp
  have "for_items body d used i h = for_items body d used (Suc i) (body (es ! i) h)"
    using es i assms(4) by (subst for_items.simps) simp
  also have "\<dots> = (None, fold body (drop (Suc i) es) (body (es ! i) h))"
    using Suc.hyps(2) assms(2) [OF Suc.prems] by (intro Suc.hyps(1)) simp_all
  also have "fold body (drop (Suc i) es) (body (es ! i) h) = fold body (drop i es) h"
    using i assms(4) by (simp add: Cons_nth_drop_Suc [symmetric])
  finally show ?case .
qed

lemma fold_body_on_result:
  assumes "\<And>h e. Q h \<Longrightarrow> body e h = on_result r (g e) h"
    and "\<And>h f. Q h \<Longrightarrow> Q (on_result r f h)" and "Q h"
  shows "fold body es h = on_result r (fold g es) h"
  using assms(3)
proof (induction es arbitrary: h)
  case Nil
  then show ?case by (simp add: on_result_id)
next
  case (Cons e es)
  have "fold body (e # es) h = fold body es (on_result r (g e) h)"
    using assms(1) [OF Cons.prems] by simp
  also have "\<dots> = on_result r (fold g es) (on_result r (g e) h)"
    using assms(2) [OF Cons.prems] by (rule Cons.IH)
  finally show ?case by (simp add: on_result_comp)
qed

lemma add_loop_fold: "add_loop es d = fold add_entry es d"
  by (induction es arbitrary: d) simp_all

lemma subtract_loop_fold: "subtract_loop es d = fold subtract_entry es d"
  by (induction es arbitrary: d) simp_all

lemma multiply_inner_fold: "multiply_inner e od ks d = fold (multiply_step e od) ks d"
  by (induction ks arbitrary: d) simp_all

lemma multiply_loop_fold:
  "multiply_loop es other d =
   fold (\<lambda>e. multiply_inner e (elements other) (range_py (num_cols other))) es d"
  by (induction es arbitrary: d) simp_all

text \<open>The loop of add and subtract on the store reached after the allocations.\<close>

lemma for_items_loop:
  assumes Q: "frame_inv I0 D0 L h" and r: "length D0 \<le> obj_elements (I0 ! r)"
    and d: "d < length D0"
    and body: "\<And>h e. frame_inv I0 D0 L h \<Longrightarrow> body e h = on_result r (g e) h"
  shows "for_items body d (length (items (dicts h ! d))) 0 h =
         (None, on_result r (fold g (items (D0 ! d))) h)"
proof -
  have inv: "frame_inv I0 D0 L (on_result r f h)" if "frame_inv I0 D0 L h" for h f
    using that r by (rule frame_inv_on_result)
  have dd: "dicts h ! d = D0 ! d" if "frame_inv I0 D0 L h" for h
    using that d by (rule frame_inv_nth)
  have "for_items body d (length (items (D0 ! d))) 0 h =
        (None, fold body (drop 0 (items (D0 ! d))) h)"
  proof (rule for_items_inv [where Q = "frame_inv I0 D0 L"])
    show "frame_inv I0 D0 L h" by (rule Q)
    show "frame_inv I0 D0 L (body e h)" if "frame_inv I0 D0 L h" for h e
      using that inv [OF that] by (simp add: body)
    show "items (dicts h ! d) = items (D0 ! d)" if "frame_inv I0 D0 L h" for h
      using dd [OF that] by simp
    show "length (items (D0 ! d)) = length (items (D0 ! d))" ..
  qed
  moreover have "fold body (items (D0 ! d)) h = on_result r (fold g (items (D0 ! d))) h"
    using body inv Q by (rule fold_body_on_result)
  ultimately show ?thesis using dd [OF Q] by simp
qed

lemma add_h_unfold:
  assumes "valid h a" "valid h b"
  shows "add_h h a b =
    (if obj_num_rows (instances h ! a) \<noteq> obj_num_rows (instances h ! b)
        \<or> obj_num_cols (instances h ! a) \<noteq> obj_num_cols (instances h ! b)
     then (Inl ValueError_addition, h)
     else
       let h3 = h\<lparr>dicts := dicts h @ [DAList.empty, elements_of h a],
                 instances := instances h @
                    [\<lparr>obj_num_rows = obj_num_rows (instances h ! a),
                      obj_num_cols = obj_num_cols (instances h ! a),
                      obj_elements = Suc (length (dicts h))\<rparr>]\<rparr>;
           d = obj_elements (instances h ! b);
           p = for_items (add_body (length (instances h))) d (length (items (dicts h ! d))) 0 h3
       in (case fst p of Some e \<Rightarrow> (Inl e, snd p) | None \<Rightarrow> (Inr (length (instances h)), snd p)))"
  using assms
  by (simp add: add_h_def SparseMatrix_h_def new_dict_def new_instance_def assign_elements_def
      elements_of_def valid_def Let_def nth_append split_beta cong: option.case_cong)


lemma loop_after_alloc:
  assumes d: "d < length (dicts h)" and k: "obj_elements ob = length (dicts h) + k" "k < length xs"
    and body: "\<And>h' e. frame_inv (instances h @ [ob]) (dicts h) (length (dicts h) + length xs) h'
                 \<Longrightarrow> body e h' = on_result (length (instances h)) (g e) h'"
  shows "for_items body d (length (items (dicts h ! d))) 0
           (h\<lparr>dicts := dicts h @ xs, instances := instances h @ [ob]\<rparr>) =
         (None, h\<lparr>dicts := dicts h @ xs[k := fold g (items (dicts h ! d)) (xs ! k)],
                   instances := instances h @ [ob]\<rparr>)"
proof -
  let ?h3 = "h\<lparr>dicts := dicts h @ xs, instances := instances h @ [ob]\<rparr>"
  let ?n = "length (instances h)"
  have Q: "frame_inv (instances h @ [ob]) (dicts h) (length (dicts h) + length xs) ?h3"
    by (simp add: frame_inv_def)
  have r: "length (dicts h) \<le> obj_elements ((instances h @ [ob]) ! ?n)"
    using k by simp
  have e: "dicts ?h3 ! d = dicts h ! d" using d by (simp add: nth_append)
  have "for_items body d (length (items (dicts ?h3 ! d))) 0 ?h3 =
        (None, on_result ?n (fold g (items (dicts h ! d))) ?h3)"
    using Q r d body by (rule for_items_loop)
  moreover have "on_result ?n f ?h3 =
      h\<lparr>dicts := dicts h @ xs[k := f (xs ! k)], instances := instances h @ [ob]\<rparr>" for f
    using k by (simp add: on_result_def list_update_append nth_append)
  ultimately show ?thesis unfolding e by simp
qed

lemma add_h_eq:
  assumes "valid h a" "valid h b"
    and "obj_num_rows (instances h ! a) = obj_num_rows (instances h ! b)"
    and "obj_num_cols (instances h ! a) = obj_num_cols (instances h ! b)"
  shows "add_h h a b =
    (Inr (length (instances h)),
     h\<lparr>dicts := dicts h @ [DAList.empty, add_loop (items (elements_of h b)) (elements_of h a)],
       instances := instances h @
         [\<lparr>obj_num_rows = obj_num_rows (instances h ! a),
           obj_num_cols = obj_num_cols (instances h ! a),
           obj_elements = Suc (length (dicts h))\<rparr>]\<rparr>)"
proof -
  let ?ob = "\<lparr>obj_num_rows = obj_num_rows (instances h ! a),
           obj_num_cols = obj_num_cols (instances h ! a),
           obj_elements = Suc (length (dicts h))\<rparr>"
  let ?d = "obj_elements (instances h ! b)"
  have d: "?d < length (dicts h)" using assms(2) by (simp add: valid_def)
  have "for_items (add_body (length (instances h))) ?d (length (items (dicts h ! ?d))) 0
           (h\<lparr>dicts := dicts h @ [DAList.empty, elements_of h a],
              instances := instances h @ [?ob]\<rparr>) =
         (None, h\<lparr>dicts := dicts h @ [DAList.empty, elements_of h a]
                     [1 := fold add_entry (items (dicts h ! ?d)) ([DAList.empty, elements_of h a] ! 1)],
                   instances := instances h @ [?ob]\<rparr>)"
    using d by (rule loop_after_alloc) (simp_all add: add_body_on_result)
  then show ?thesis
    using assms(3,4) unfolding add_h_unfold [OF assms(1,2)]
    by (simp add: Let_def add_loop_fold elements_of_def)
qed

lemma subtract_h_unfold:
  assumes "valid h a" "valid h b"
  shows "subtract_h h a b =
    (if obj_num_rows (instances h ! a) \<noteq> obj_num_rows (instances h ! b)
        \<or> obj_num_cols (instances h ! a) \<noteq> obj_num_cols (instances h ! b)
     then (Inl ValueError_subtraction, h)
     else
       let h3 = h\<lparr>dicts := dicts h @ [DAList.empty, elements_of h a],
                 instances := instances h @
                    [\<lparr>obj_num_rows = obj_num_rows (instances h ! a),
                      obj_num_cols = obj_num_cols (instances h ! a),
                      obj_elements = Suc (length (dicts h))\<rparr>]\<rparr>;
           d = obj_elements (instances h ! b);
           p = for_items (subtract_body (length (instances h))) d (length (items (dicts h ! d))) 0 h3
       in (case fst p of Some e \<Rightarrow> (Inl e, snd p) | None \<Rightarrow> (Inr (length (instances h)), snd p)))"
  using assms
  by (simp add: subtract_h_def SparseMatrix_h_def new_dict_def new_instance_def
      assign_elements_def elements_of_def valid_def Let_def nth_append split_beta
      cong: option.case_cong)

lemma subtract_h_eq:
  assumes "valid h a" "valid h b"
    and "obj_num_rows (instances h ! a) = obj_num_rows (instances h ! b)"
    and "obj_num_cols (instances h ! a) = obj_num_cols (instances h ! b)"
  shows "subtract_h h a b =
    (Inr (length (instances h)),
     h\<lparr>dicts := dicts h @
         [DAList.empty, subtract_loop (items (elements_of h b)) (elements_of h a)],
       instances := instances h @
         [\<lparr>obj_num_rows = obj_num_rows (instances h ! a),
           obj_num_cols = obj_num_cols (instances h ! a),
           obj_elements = Suc (length (dicts h))\<rparr>]\<rparr>)"
proof -
  let ?ob = "\<lparr>obj_num_rows = obj_num_rows (instances h ! a),
           obj_num_cols = obj_num_cols (instances h ! a),
           obj_elements = Suc (length (dicts h))\<rparr>"
  let ?d = "obj_elements (instances h ! b)"
  have d: "?d < length (dicts h)" using assms(2) by (simp add: valid_def)
  have "for_items (subtract_body (length (instances h))) ?d (length (items (dicts h ! ?d))) 0
           (h\<lparr>dicts := dicts h @ [DAList.empty, elements_of h a],
              instances := instances h @ [?ob]\<rparr>) =
         (None, h\<lparr>dicts := dicts h @ [DAList.empty, elements_of h a]
                     [1 := fold subtract_entry (items (dicts h ! ?d))
                             ([DAList.empty, elements_of h a] ! 1)],
                   instances := instances h @ [?ob]\<rparr>)"
    using d by (rule loop_after_alloc) (simp_all add: subtract_body_on_result)
  then show ?thesis
    using assms(3,4) unfolding subtract_h_unfold [OF assms(1,2)]
    by (simp add: Let_def subtract_loop_fold elements_of_def)
qed

lemma multiply_h_unfold:
  assumes "valid h a" "valid h b"
  shows "multiply_h h a b =
    (if obj_num_cols (instances h ! a) \<noteq> obj_num_rows (instances h ! b)
     then (Inl ValueError_multiplication, h)
     else
       let h1 = h\<lparr>dicts := dicts h @ [DAList.empty],
                 instances := instances h @
                    [\<lparr>obj_num_rows = obj_num_rows (instances h ! a),
                      obj_num_cols = obj_num_cols (instances h ! b),
                      obj_elements = length (dicts h)\<rparr>]\<rparr>;
           d = obj_elements (instances h ! a);
           p = for_items (multiply_body (length (instances h)) b) d
                 (length (items (dicts h ! d))) 0 h1
       in (case fst p of Some e \<Rightarrow> (Inl e, snd p) | None \<Rightarrow> (Inr (length (instances h)), snd p)))"
  using assms
  by (simp add: multiply_h_def SparseMatrix_h_def new_dict_def new_instance_def
      elements_of_def valid_def Let_def nth_append split_beta cong: option.case_cong)

lemma multiply_body_on_result:
  assumes Q: "frame_inv (instances h @ [ob]) (dicts h) L h'" and b: "valid h b"
    and r: "length (dicts h) \<le> obj_elements ob"
  shows "multiply_body (length (instances h)) b e h' =
         on_result (length (instances h))
           (multiply_inner e (elements_of h b) (range_py (obj_num_cols (instances h ! b)))) h'"
proof -
  let ?n = "length (instances h)"
  let ?Q = "frame_inv (instances h @ [ob]) (dicts h) L"
  have ib: "(instances h @ [ob]) ! b = instances h ! b"
    using b by (simp add: valid_def nth_append)
  have el: "elements_of h'' b = elements_of h b" if "?Q h''" for h''
  proof -
    have "instances h'' = instances h @ [ob]" using that by (simp add: frame_inv_def)
    moreover have "dicts h'' ! obj_elements (instances h ! b) = dicts h ! obj_elements (instances h ! b)"
      using that b by (intro frame_inv_nth) (simp_all add: valid_def)
    ultimately show ?thesis by (simp add: elements_of_def ib)
  qed
  have step: "multiply_step_h ?n b e k h'' = on_result ?n (multiply_step e (elements_of h b) k) h''"
    if "?Q h''" for h'' k
    using el [OF that] by (simp add: multiply_step_h_on_result)
  have inv: "?Q (on_result ?n f h'')" if "?Q h''" for h'' f
    using that r by (intro frame_inv_on_result) simp_all
  have "fold (multiply_step_h ?n b e) ks h' =
        on_result ?n (fold (multiply_step e (elements_of h b)) ks) h'" for ks
    using step inv Q by (rule fold_body_on_result)
  moreover have "instances h' ! b = instances h ! b"
    using Q ib by (simp add: frame_inv_def)
  ultimately show ?thesis
    by (simp add: multiply_body_def multiply_inner_fold [abs_def])
qed

lemma multiply_h_eq:
  assumes "valid h a" "valid h b"
    and "obj_num_cols (instances h ! a) = obj_num_rows (instances h ! b)"
  shows "multiply_h h a b =
    (Inr (length (instances h)),
     h\<lparr>dicts := dicts h @ [multiply_loop (items (elements_of h a)) (view h b) DAList.empty],
       instances := instances h @
         [\<lparr>obj_num_rows = obj_num_rows (instances h ! a),
           obj_num_cols = obj_num_cols (instances h ! b),
           obj_elements = length (dicts h)\<rparr>]\<rparr>)"
proof -
  let ?ob = "\<lparr>obj_num_rows = obj_num_rows (instances h ! a),
           obj_num_cols = obj_num_cols (instances h ! b),
           obj_elements = length (dicts h)\<rparr>"
  let ?d = "obj_elements (instances h ! a)"
  let ?g = "\<lambda>e. multiply_inner e (elements_of h b) (range_py (obj_num_cols (instances h ! b)))"
  have d: "?d < length (dicts h)" using assms(1) by (simp add: valid_def)
  have "for_items (multiply_body (length (instances h)) b) ?d (length (items (dicts h ! ?d))) 0
           (h\<lparr>dicts := dicts h @ [DAList.empty], instances := instances h @ [?ob]\<rparr>) =
         (None, h\<lparr>dicts := dicts h @ [DAList.empty]
                     [0 := fold ?g (items (dicts h ! ?d)) ([DAList.empty] ! 0)],
                   instances := instances h @ [?ob]\<rparr>)"
    using d
  proof (rule loop_after_alloc)
    show "obj_elements ?ob = length (dicts h) + 0" by simp
    show "0 < length [DAList.empty :: dict]" by simp
    show "multiply_body (length (instances h)) b e h' = on_result (length (instances h)) (?g e) h'"
      if "frame_inv (instances h @ [?ob]) (dicts h) (length (dicts h) + length [DAList.empty :: dict]) h'"
      for h' e
      using that assms(2) by (rule multiply_body_on_result) simp
  qed
  then show ?thesis
    using assms(3) unfolding multiply_h_unfold [OF assms(1,2)]
    by (simp add: Let_def multiply_loop_fold elements_of_def view_def)
qed

lemma unchanged_view:
  assumes "unchanged h h'" "valid h r"
  shows "view h' r = view h r"
proof -
  have i: "instances h' ! r = instances h ! r"
    using assms by (metis unchanged_def valid_def nth_take)
  have "dicts h' ! obj_elements (instances h ! r) = dicts h ! obj_elements (instances h ! r)"
    using assms by (metis unchanged_def valid_def nth_take)
  then show ?thesis by (simp add: view_def elements_of_def i)
qed

lemma frame_ok_alloc:
  assumes "valid h a" "valid h b" "length (dicts h) \<le> obj_elements ob"
    "obj_elements ob < length (dicts h) + length xs"
  shows "frame_ok h a b row col v
     (Inr (length (instances h)), h\<lparr>dicts := dicts h @ xs, instances := instances h @ [ob]\<rparr>)"
proof -
  let ?h' = "h\<lparr>dicts := dicts h @ xs, instances := instances h @ [ob]\<rparr>"
  let ?h'' = "set_element_h ?h' (length (instances h)) row col v"
  have u: "unchanged h ?h'" by (simp add: unchanged_def)
  have u': "unchanged h ?h''"
    using assms(3) by (simp add: unchanged_def set_element_h_def store_item_def Let_def)
  have f: "fresh h ?h' (length (instances h))"
    using assms(3,4) by (simp add: fresh_def)
  have n: "length (instances h) \<noteq> a" "length (instances h) \<noteq> b"
    using assms(1,2) by (auto simp: valid_def)
  show ?thesis
    using u u' f n unchanged_view [OF u assms(1)] unchanged_view [OF u assms(2)]
      unchanged_view [OF u' assms(1)] unchanged_view [OF u' assms(2)]
    by (simp add: frame_ok_def)
qed

lemma frame_ok_error: "valid h a \<Longrightarrow> valid h b \<Longrightarrow> frame_ok h a b row col v (Inl e, h)"
  by (simp add: frame_ok_def unchanged_def)

lemma add_h_frame:
  assumes "valid h a" "valid h b"
  shows "frame_ok h a b row col v (add_h h a b)"
proof (cases "obj_num_rows (instances h ! a) = obj_num_rows (instances h ! b)
    \<and> obj_num_cols (instances h ! a) = obj_num_cols (instances h ! b)")
  case True
  then show ?thesis
    unfolding add_h_eq [OF assms, OF conjunct1 [OF True] conjunct2 [OF True]]
    by (intro frame_ok_alloc assms) simp_all
next
  case False
  then have "add_h h a b = (Inl ValueError_addition, h)"
    by (auto simp: add_h_def Let_def)
  then show ?thesis using assms by (simp add: frame_ok_error)
qed

lemma add_h_refines:
  assumes "valid h a" "valid h b"
  shows "outcome_view (add_h h a b) = add (view h a) (view h b)"
proof (cases "obj_num_rows (instances h ! a) = obj_num_rows (instances h ! b)
    \<and> obj_num_cols (instances h ! a) = obj_num_cols (instances h ! b)")
  case True
  then show ?thesis
    unfolding add_h_eq [OF assms, OF conjunct1 [OF True] conjunct2 [OF True]]
    by (simp add: outcome_view_def add_def view_def SparseMatrix_def elements_of_def nth_append)
next
  case False
  then have "add_h h a b = (Inl ValueError_addition, h)"
    by (auto simp: add_h_def Let_def)
  then show ?thesis using False by (auto simp: outcome_view_def add_def view_def)
qed


lemma subtract_h_frame:
  assumes "valid h a" "valid h b"
  shows "frame_ok h a b row col v (subtract_h h a b)"
proof (cases "obj_num_rows (instances h ! a) = obj_num_rows (instances h ! b)
    \<and> obj_num_cols (instances h ! a) = obj_num_cols (instances h ! b)")
  case True
  then show ?thesis
    unfolding subtract_h_eq [OF assms, OF conjunct1 [OF True] conjunct2 [OF True]]
    by (intro frame_ok_alloc assms) simp_all
next
  case False
  then have "subtract_h h a b = (Inl ValueError_subtraction, h)"
    by (auto simp: subtract_h_def Let_def)
  then show ?thesis using assms by (simp add: frame_ok_error)
qed

lemma subtract_h_refines:
  assumes "valid h a" "valid h b"
  shows "outcome_view (subtract_h h a b) = subtract (view h a) (view h b)"
proof (cases "obj_num_rows (instances h ! a) = obj_num_rows (instances h ! b)
    \<and> obj_num_cols (instances h ! a) = obj_num_cols (instances h ! b)")
  case True
  then show ?thesis
    unfolding subtract_h_eq [OF assms, OF conjunct1 [OF True] conjunct2 [OF True]]
    by (simp add: outcome_view_def subtract_def view_def SparseMatrix_def elements_of_def
        nth_append)
next
  case False
  then have "subtract_h h a b = (Inl ValueError_subtraction, h)"
    by (auto simp: subtract_h_def Let_def)
  then show ?thesis using False by (auto simp: outcome_view_def subtract_def view_def)
qed

lemma multiply_h_frame:
  assumes "valid h a" "valid h b"
  shows "frame_ok h a b row col v (multiply_h h a b)"
proof (cases "obj_num_cols (instances h ! a) = obj_num_rows (instances h ! b)")
  case True
  then show ?thesis
    unfolding multiply_h_eq [OF assms True]
    by (intro frame_ok_alloc assms) simp_all
next
  case False
  then have "multiply_h h a b = (Inl ValueError_multiplication, h)"
    by (auto simp: multiply_h_def Let_def)
  then show ?thesis using assms by (simp add: frame_ok_error)
qed

lemma multiply_h_refines:
  assumes "valid h a" "valid h b"
  shows "outcome_view (multiply_h h a b) = multiply (view h a) (view h b)"
proof (cases "obj_num_cols (instances h ! a) = obj_num_rows (instances h ! b)")
  case True
  then show ?thesis
    unfolding multiply_h_eq [OF assms True]
    by (simp add: outcome_view_def multiply_def view_def SparseMatrix_def elements_of_def
        nth_append)
next
  case False
  then have "multiply_h h a b = (Inl ValueError_multiplication, h)"
    by (auto simp: multiply_h_def Let_def)
  then show ?thesis using False by (auto simp: outcome_view_def multiply_def view_def)
qed

lemma example_store_eq:
  "example_store =
     \<lparr>instances = [\<lparr>obj_num_rows = 2, obj_num_cols = 2, obj_elements = 0\<rparr>,
                   \<lparr>obj_num_rows = 2, obj_num_cols = 2, obj_elements = 1\<rparr>],
      dicts = [DAList.update (0, 1) 3 (DAList.update (0, 0) 2 DAList.empty),
               DAList.update (1, 0) 4 (DAList.update (0, 0) 1 DAList.empty)]\<rparr>"
  by (simp add: example_store_def SparseMatrix_h_def new_dict_def new_instance_def
      set_element_h_def store_item_def Let_def)

text \<open>
  Claim C7. Called on valid operands, which may be the same object, \<open>add\<close>, \<open>subtract\<close> and
  \<open>multiply\<close> mutate nothing that existed before the call: both operands keep their
  \<open>num_rows\<close>, \<open>num_cols\<close> and element mapping. A returned matrix is a fresh instance with
  a dictionary of its own, and \<open>set_element\<close> on it afterwards leaves both operands as they
  were. Each call ends, without the error of a dictionary resized under iteration, in the
  outcome of the same operation on the operands read as values.
\<close>

theorem arithmetic_does_not_mutate:
  assumes "valid h a" and "valid h b"
  shows "frame_ok h a b row col v (add_h h a b)
       \<and> frame_ok h a b row col v (subtract_h h a b)
       \<and> frame_ok h a b row col v (multiply_h h a b)
       \<and> outcome_view (add_h h a b) = add (view h a) (view h b)
       \<and> outcome_view (subtract_h h a b) = subtract (view h a) (view h b)
       \<and> outcome_view (multiply_h h a b) = multiply (view h a) (view h b)"
  using assms
  by (simp add: add_h_frame subtract_h_frame multiply_h_frame add_h_refines subtract_h_refines
      multiply_h_refines)

theorem arithmetic_does_not_mutate_witness:
  "valid example_store 0 \<and> valid example_store 1
   \<and> frame_ok example_store 0 1 5 5 9 (add_h example_store 0 1)
   \<and> frame_ok example_store 0 1 5 5 9 (subtract_h example_store 0 1)
   \<and> frame_ok example_store 0 1 5 5 9 (multiply_h example_store 0 1)
   \<and> (\<exists>R. outcome_view (multiply_h example_store 0 1) = Inr R)
   \<and> fst (add_h example_store 0 1) = Inr 2"
proof -
  have v: "valid example_store 0" "valid example_store 1"
    by (simp_all add: example_store_eq valid_def)
  have d: "obj_num_rows (instances example_store ! 0) = obj_num_rows (instances example_store ! 1)"
    "obj_num_cols (instances example_store ! 0) = obj_num_cols (instances example_store ! 1)"
    by (simp_all add: example_store_eq)
  have m: "\<exists>R. multiply (view example_store 0) (view example_store 1) = Inr R"
    by (simp add: multiply_def view_def example_store_eq Let_def)
  have f: "fst (add_h example_store 0 1) = Inr 2"
    unfolding add_h_eq [OF v d] by (simp add: example_store_eq)
  show ?thesis
    using v m f arithmetic_does_not_mutate [OF v, of 5 5 9] by simp
qed

end
